theory Spec2Isabelle
  imports
    Main
    "HOL-Library.Finite_Map"
    "HOL-Library.List_Lexorder"
    "HOL-Library.Char_ord"
    "HOL-Library.Monad_Syntax"
begin

section \<open>The FlavourClusterWide scheduler plugin\<close>

text \<open>
  A shallow embedding of \<^verbatim>\<open>pkg/flavourclusterwide/flavourclusterwide.go\<close>.

  \<^item> Go's \<^verbatim>\<open>map[string]map[string]int\<close> is a finite map of finite maps. Reading a
    missing key gives the zero value (a nil row, the count 0); the two-value form
    \<^verbatim>\<open>v, exists := m[k]\<close> is \<open>fmlookup\<close>. Assigning through a missing row
    (\<^verbatim>\<open>m[a][b] = v\<close> with no row \<^verbatim>\<open>a\<close>) is a run-time panic in Go; the model
    returns \<open>None\<close> there, so every function that writes is option-valued.
  \<^item> A \<^verbatim>\<open>range\<close> loop over a map visits every key once, in an order Go leaves
    unspecified; the model visits the keys in sorted order. What the minimum loop of
    \<^verbatim>\<open>Score\<close> returns does not depend on the order when no count is negative
    (\<open>minPods_Min\<close>, \<open>set_present_counts\<close>).
  \<^item> Go's \<^verbatim>\<open>int\<close> is taken as 64 bits wide; the only arithmetic on it is \<^verbatim>\<open>++\<close>,
    modelled on \<open>int\<close> with the wrap-around written out.
  \<^item> The API server is an environment: what each query answers, and what the clock
    reads. A function that may query it also returns the list of queries it made.
  \<^item> The mutex and the log lines are not modelled: each operation is one atomic step.
    The construction of the API client in \<^verbatim>\<open>New\<close>, which can fail, is outside the
    model; \<open>New\<close> is the state a successful construction returns.
\<close>

subsection \<open>Data\<close>

type_synonym counts = "(string, int) fmap"
type_synonym table = "(string, counts) fmap"

text \<open>A point in time and a duration are both a number of nanoseconds.\<close>

type_synonym time = int

record FlavourClusterWide =
  cache :: table
  lastUpdated :: time
  labelName :: string

record Pod =
  pod_Name :: string
  pod_Labels :: "string \<rightharpoonup> string"
  pod_NodeName :: string

record Node =
  node_Name :: string

datatype api_error = ApiError string

datatype query =
  ListNodes string
| ListPods string string

record world =
  clock_since :: time
  clock_now :: time
  nodes_answer :: "string \<Rightarrow> api_error + Node list"
  pods_answer :: "string \<Rightarrow> string \<Rightarrow> api_error + Pod list"

text \<open>The scheduler framework's status codes and status value.\<close>

datatype Code =
  Success | Error | Unschedulable | UnschedulableAndUnresolvable | Wait | Skip | Pending

datatype Status = NewStatus Code string

definition defaultLabelName :: string where
  "defaultLabelName = ''flavour''"

text \<open>The state \<^verbatim>\<open>New\<close> returns: an empty table and the zero time.\<close>

definition New :: "string \<Rightarrow> FlavourClusterWide" where
  "New l = \<lparr>cache = fmempty, lastUpdated = 0,
            labelName = (if l = [] then defaultLabelName else l)\<rparr>"

subsection \<open>Go's map and integer operations\<close>

definition int_wrap :: "int \<Rightarrow> int" where
  "int_wrap x = (x + 2 ^ 63) mod 2 ^ 64 - 2 ^ 63"

text \<open>\<^verbatim>\<open>pod.Labels[k]\<close>: the empty string when the label is missing.\<close>

definition label :: "Pod \<Rightarrow> string \<Rightarrow> string" where
  "label pod k = (case pod_Labels pod k of None \<Rightarrow> [] | Some v \<Rightarrow> v)"

text \<open>\<^verbatim>\<open>c[n]\<close>: a missing row reads as the nil map, which reads as the empty one.\<close>

definition row_of :: "table \<Rightarrow> string \<Rightarrow> counts" where
  "row_of c n = (case fmlookup c n of None \<Rightarrow> fmempty | Some r \<Rightarrow> r)"

definition count_of :: "counts \<Rightarrow> string \<Rightarrow> int" where
  "count_of r fl = (case fmlookup r fl of None \<Rightarrow> 0 | Some v \<Rightarrow> v)"

text \<open>\<^verbatim>\<open>c[n][fl] = v\<close>: a panic (\<open>None\<close>) when the row \<open>n\<close> is missing.\<close>

definition store :: "table \<Rightarrow> string \<Rightarrow> string \<Rightarrow> int \<Rightarrow> table option" where
  "store c n fl v =
     (case fmlookup c n of
        None \<Rightarrow> None
      | Some r \<Rightarrow> Some (fmupd n (fmupd fl v r) c))"

text \<open>\<^verbatim>\<open>c[n][fl]++\<close>\<close>

definition increment :: "table \<Rightarrow> string \<Rightarrow> string \<Rightarrow> table option" where
  "increment c n fl = store c n fl (int_wrap (count_of (row_of c n) fl + 1))"

text \<open>The keys a \<^verbatim>\<open>range\<close> loop visits.\<close>

definition keys :: "('k::linorder, 'v) fmap \<Rightarrow> 'k list" where
  "keys m = sorted_list_of_fset (fmdom m)"

text \<open>A loop whose body may panic: the first panic ends it.\<close>

fun for_each :: "('a \<Rightarrow> 's \<Rightarrow> 's option) \<Rightarrow> 'a list \<Rightarrow> 's \<Rightarrow> 's option" where
  "for_each body [] s = Some s"
| "for_each body (x # xs) s =
     (case body x s of None \<Rightarrow> None | Some s' \<Rightarrow> for_each body xs s')"

subsection \<open>updateCacheIfNeeded\<close>

definition Minute :: time where
  "Minute = 60 * 1000000000"

text \<open>\<^verbatim>\<open>time.Since(t)\<close>: the difference, saturated to a 64-bit duration.\<close>

definition since :: "time \<Rightarrow> time \<Rightarrow> time" where
  "since now t = max (- (2 ^ 63)) (min (2 ^ 63 - 1) (now - t))"

text \<open>First pass: the flavour values of the pods that have a node.\<close>

definition discover :: "string \<Rightarrow> Pod \<Rightarrow> (string, bool) fmap \<Rightarrow> (string, bool) fmap" where
  "discover l pod discoveredFlavours =
     (if pod_NodeName pod = [] then discoveredFlavours
      else let flavour = label pod l in
        if flavour \<noteq> [] then fmupd flavour True discoveredFlavours
        else discoveredFlavours)"

text \<open>A row for each listed node, with a zero for each discovered flavour.\<close>

definition init_node :: "(string, bool) fmap \<Rightarrow> Node \<Rightarrow> table \<Rightarrow> table option" where
  "init_node discoveredFlavours node newCache =
     for_each (\<lambda>flavour c. store c (node_Name node) flavour 0)
       (keys discoveredFlavours)
       (fmupd (node_Name node) fmempty newCache)"

text \<open>Second pass: count each pod on its node, under its flavour.\<close>

definition count_pod :: "string \<Rightarrow> Pod \<Rightarrow> table \<Rightarrow> table option" where
  "count_pod l pod newCache =
     (if pod_NodeName pod = [] then Some newCache
      else let node = pod_NodeName pod; flavour = label pod l in
        if flavour = [] then Some newCache
        else do {
          let c1 = (if fmlookup newCache node = None
                    then fmupd node fmempty newCache else newCache);
          c2 \<leftarrow> (if fmlookup (row_of c1 node) flavour = None
                 then store c1 node flavour 0 else Some c1);
          increment c2 node flavour
        })"

definition rebuild :: "string \<Rightarrow> Node list \<Rightarrow> Pod list \<Rightarrow> table option" where
  "rebuild l nodes pods = do {
     let discoveredFlavours = fold (discover l) pods fmempty;
     c \<leftarrow> for_each (init_node discoveredFlavours) nodes fmempty;
     for_each (count_pod l) pods c
   }"

definition workerSelector :: string where
  "workerSelector = ''node-role.kubernetes.io/worker''"

definition updateCacheIfNeeded ::
  "world \<Rightarrow> FlavourClusterWide \<Rightarrow> (FlavourClusterWide \<times> query list) option" where
  "updateCacheIfNeeded w f =
     (if since (clock_since w) (lastUpdated f) < 1 * Minute then Some (f, [])
      else case nodes_answer w workerSelector of
        Inl err \<Rightarrow> Some (f, [ListNodes workerSelector])
      | Inr nodes \<Rightarrow>
         (case pods_answer w [] (labelName f) of
            Inl err \<Rightarrow> Some (f, [ListNodes workerSelector, ListPods [] (labelName f)])
          | Inr pods \<Rightarrow>
             (case rebuild (labelName f) nodes pods of
                None \<Rightarrow> None
              | Some newCache \<Rightarrow>
                  Some (f\<lparr>cache := newCache, lastUpdated := clock_now w\<rparr>,
                        [ListNodes workerSelector, ListPods [] (labelName f)]))))"

subsection \<open>PostBind\<close>

text \<open>The loop that gives every row of the table an entry for the flavour.\<close>

definition backfill :: "string \<Rightarrow> string \<Rightarrow> table \<Rightarrow> table option" where
  "backfill flavour node c =
     (if fmlookup (row_of c node) flavour = None then store c node flavour 0 else Some c)"

definition PostBind :: "FlavourClusterWide \<Rightarrow> Pod \<Rightarrow> string \<Rightarrow> FlavourClusterWide option" where
  "PostBind f pod nodeName =
     (let flavour = label pod (labelName f) in
      if flavour = [] then Some f
      else do {
        let c1 = (if fmlookup (cache f) nodeName = None
                  then fmupd nodeName fmempty (cache f) else cache f);
        c2 \<leftarrow> (if fmlookup (row_of c1 nodeName) flavour = None
               then do {
                 c \<leftarrow> store c1 nodeName flavour 0;
                 for_each (backfill flavour) (keys c) c
               }
               else Some c1);
        c3 \<leftarrow> increment c2 nodeName flavour;
        Some (f\<lparr>cache := c3\<rparr>)
      })"

subsection \<open>Score\<close>

text \<open>The loop of \<^verbatim>\<open>Score\<close> that looks for the smallest count; \<open>-1\<close> means none yet.\<close>

definition min_step :: "string \<Rightarrow> counts \<Rightarrow> int \<Rightarrow> int" where
  "min_step flavour nodeCounts minPods =
     (case fmlookup nodeCounts flavour of
        Some count \<Rightarrow> if minPods = - 1 \<or> count < minPods then count else minPods
      | None \<Rightarrow> minPods)"

definition minPods :: "table \<Rightarrow> string \<Rightarrow> int" where
  "minPods c flavour = fold (\<lambda>node. min_step flavour (row_of c node)) (keys c) (- 1)"

definition not_applied :: "string \<Rightarrow> string" where
  "not_applied l =
     ''Pod does not have the '' @ [CHR 0x27] @ l @ [CHR 0x27] @
     '' label, scoring is not applied''"

definition Score ::
  "world \<Rightarrow> FlavourClusterWide \<Rightarrow> Pod \<Rightarrow> string \<Rightarrow>
     ((int \<times> Status) \<times> FlavourClusterWide \<times> query list) option" where
  "Score w f pod nodeName =
     (let flavour = label pod (labelName f) in
      if flavour = [] then
        Some ((0, NewStatus Success (not_applied (labelName f))), f, [])
      else
        case updateCacheIfNeeded w f of
          None \<Rightarrow> None
        | Some (f', qs) \<Rightarrow>
            let podCount = count_of (row_of (cache f') nodeName) flavour in
            if podCount = minPods (cache f') flavour
            then Some ((100, NewStatus Success []), f', qs)
            else Some ((0, NewStatus Success []), f', qs))"

subsection \<open>Notions the properties are stated with\<close>

text \<open>The counts a flavour has in the rows that have an entry for it.\<close>

definition present_counts :: "table \<Rightarrow> string \<Rightarrow> int list" where
  "present_counts c flavour =
     List.map_filter (\<lambda>node. fmlookup (row_of c node) flavour) (keys c)"

text \<open>The count a flavour has in every row, a row with no entry counting as zero.\<close>

definition all_counts :: "table \<Rightarrow> string \<Rightarrow> int list" where
  "all_counts c flavour = map (\<lambda>node. count_of (row_of c node) flavour) (keys c)"

text \<open>The data model's tables: no count is negative.\<close>

definition nonneg :: "table \<Rightarrow> bool" where
  "nonneg c = fmpred (\<lambda>node row. fmpred (\<lambda>flavour count. 0 \<le> count) row) c"

text \<open>Uniformity: each row has an entry for each flavour that any row has one for.\<close>

definition uniform :: "table \<Rightarrow> bool" where
  "uniform c = fmpred (\<lambda>node row. fmpred (\<lambda>node' row'. fmdom row' |\<subseteq>| fmdom row) c) c"

text \<open>A row, given a zero entry for the flavour when it has none.\<close>

definition with_entry :: "string \<Rightarrow> counts \<Rightarrow> counts" where
  "with_entry fl r = (if fmlookup r fl = None then fmupd fl 0 r else r)"

subsection \<open>Example inputs\<close>

definition flavoured :: "string \<Rightarrow> Pod" where
  "flavoured fl = \<lparr>pod_Name = ''pod'', pod_Labels = [''flavour'' \<mapsto> fl], pod_NodeName = []\<rparr>"

definition running :: "string \<Rightarrow> string \<Rightarrow> Pod" where
  "running fl node =
     \<lparr>pod_Name = ''pod'', pod_Labels = [''flavour'' \<mapsto> fl], pod_NodeName = node\<rparr>"

definition unlabelled :: Pod where
  "unlabelled = \<lparr>pod_Name = ''pod'', pod_Labels = Map.empty, pod_NodeName = []\<rparr>"

definition plugin :: "table \<Rightarrow> time \<Rightarrow> FlavourClusterWide" where
  "plugin c t = \<lparr>cache = c, lastUpdated = t, labelName = ''flavour''\<rparr>"

definition world_at ::
  "time \<Rightarrow> (api_error + Node list) \<Rightarrow> (api_error + Pod list) \<Rightarrow> world" where
  "world_at t nodes pods =
     \<lparr>clock_since = t, clock_now = t, nodes_answer = (\<lambda>sel. nodes),
      pods_answer = (\<lambda>ns sel. pods)\<rparr>"

definition table_of :: "(string \<times> (string \<times> int) list) list \<Rightarrow> table" where
  "table_of rows = fmap_of_list (map (\<lambda>(node, row). (node, fmap_of_list row)) rows)"

section \<open>Properties\<close>

subsection \<open>Maps and iteration\<close>

lemma set_keys: "set (keys m) = fmdom' m"
  by (simp add: keys_def fmdom'_alt_def)

lemma nonneg_lookup:
  "nonneg c \<Longrightarrow> fmlookup (row_of c n) fl = Some v \<Longrightarrow> 0 \<le> v"
  by (auto simp: nonneg_def row_of_def fmpred_iff split: option.splits)

lemma set_present_counts:
  "set (present_counts c fl) = {v. \<exists>n r. fmlookup c n = Some r \<and> fmlookup r fl = Some v}"
  by (force simp: present_counts_def List.map_filter_def set_keys row_of_def
      fmdom'_alt_def fmlookup_dom_iff image_iff split: option.splits)

lemma count_of_nonneg: "nonneg c \<Longrightarrow> 0 \<le> count_of (row_of c n) fl"
  using nonneg_lookup[of c n fl] by (auto simp: count_of_def split: option.splits)

lemma store_dom: "store c n fl v = Some c' \<Longrightarrow> fmdom c' = fmdom c"
  by (auto simp: store_def finsert_absorb fmdomI split: option.splits)

lemma store_total: "fmlookup c n \<noteq> None \<Longrightarrow> \<exists>c'. store c n fl v = Some c' \<and> fmlookup c' n \<noteq> None"
  by (auto simp: store_def)

lemma store_entry:
  "store c n fl v = Some c' \<Longrightarrow> fmlookup (row_of c' n) fl = Some v"
  by (auto simp: store_def row_of_def split: option.splits)

text \<open>
  A loop whose body keeps an invariant, and does not panic where the invariant holds,
  does not panic and ends in a state where the invariant holds.
\<close>

lemma for_each_invariant:
  assumes "I s"
    and "\<And>x s. x \<in> set xs \<Longrightarrow> I s \<Longrightarrow> \<exists>s'. body x s = Some s' \<and> I s'"
  shows "\<exists>s'. for_each body xs s = Some s' \<and> I s'"
  using assms
proof (induction xs arbitrary: s)
  case Nil
  then show ?case by simp
next
  case (Cons x xs)
  from Cons.prems obtain s1 where s1: "body x s = Some s1" "I s1"
    by (meson list.set_intros(1))
  have "\<exists>s'. for_each body xs s1 = Some s' \<and> I s'"
    using Cons.IH[OF s1(2)] Cons.prems(2) by simp
  then show ?case by (simp add: s1(1))
qed

lemma for_each_total:
  assumes "\<And>x s. \<exists>s'. body x s = Some s'"
  shows "\<exists>s'. for_each body xs s = Some s'"
  using for_each_invariant[where I = "\<lambda>_. True" and body = body and xs = xs and s = s] assms
  by auto

subsection \<open>No write panics\<close>

text \<open>
  Each write \<^verbatim>\<open>c[n][fl] = v\<close> of the source comes after the row \<open>n\<close> has been made,
  so the rebuild and the refresh always return.
\<close>

lemma init_node_total:
  "\<exists>c'. init_node d node c = Some c'"
proof -
  let ?I = "\<lambda>c. fmlookup c (node_Name node) \<noteq> None"
  have "\<exists>c'. for_each (\<lambda>flavour c. store c (node_Name node) flavour 0) (keys d)
     (fmupd (node_Name node) fmempty c) = Some c' \<and> ?I c'"
    by (rule for_each_invariant[where I = ?I]) (auto simp: store_def)
  then show ?thesis by (auto simp: init_node_def)
qed

lemma increment_total:
  "fmlookup c n \<noteq> None \<Longrightarrow> \<exists>c'. increment c n fl = Some c'"
  by (auto simp: increment_def store_def)

lemma count_pod_total:
  "\<exists>c'. count_pod l pod c = Some c'"
proof -
  define node where "node = pod_NodeName pod"
  define c1 where "c1 = (if fmlookup c node = None then fmupd node fmempty c else c)"
  have c1: "fmlookup c1 node \<noteq> None" by (simp add: c1_def)
  have "\<exists>c2. (if fmlookup (row_of c1 node) (label pod l) = None
                 then store c1 node (label pod l) 0 else Some c1) = Some c2 \<and> fmlookup c2 node \<noteq> None"
    using c1 store_total[OF c1] by simp
  then obtain c2 where c2: "(if fmlookup (row_of c1 node) (label pod l) = None
                 then store c1 node (label pod l) 0 else Some c1) = Some c2" "fmlookup c2 node \<noteq> None"
    by blast
  from increment_total[OF c2(2)] obtain c3 where "increment c2 node (label pod l) = Some c3"
    by blast
  then show ?thesis
    using c2(1) by (auto simp: count_pod_def Let_def node_def c1_def)
qed

lemma rebuild_total: "\<exists>c. rebuild l nodes pods = Some c"
proof -
  obtain c where c: "for_each (init_node (fold (discover l) pods fmempty)) nodes fmempty = Some c"
    using for_each_total[of "init_node (fold (discover l) pods fmempty)"] init_node_total by meson
  obtain c' where "for_each (count_pod l) pods c = Some c'"
    using for_each_total[of "count_pod l"] count_pod_total by meson
  then show ?thesis by (simp add: rebuild_def c)
qed

lemma rebuild_not_None: "rebuild l nodes pods \<noteq> None"
  using rebuild_total[of l nodes pods] by auto

lemma updateCacheIfNeeded_total: "\<exists>f' qs. updateCacheIfNeeded w f = Some (f', qs)"
  by (auto simp: updateCacheIfNeeded_def rebuild_not_None split: sum.splits option.splits)

lemma updateCacheIfNeeded_fresh:
  "since (clock_since w) (lastUpdated f) < Minute \<Longrightarrow> updateCacheIfNeeded w f = Some (f, [])"
  by (simp add: updateCacheIfNeeded_def)

lemma PostBind_total:
  "\<exists>f'. PostBind f pod n = Some f' \<and>
     (label pod (labelName f) \<noteq> [] \<longrightarrow>
        (\<exists>count. fmlookup (row_of (cache f') n) (label pod (labelName f)) = Some count))"
proof (cases "label pod (labelName f) = []")
  case True
  then show ?thesis by (simp add: PostBind_def)
next
  case False
  define fl where "fl = label pod (labelName f)"
  define c1 where "c1 = (if fmlookup (cache f) n = None then fmupd n fmempty (cache f) else cache f)"
  have c1: "fmlookup c1 n \<noteq> None" by (simp add: c1_def)
  have "\<exists>c2. (if fmlookup (row_of c1 n) fl = None
               then do {
                 c \<leftarrow> store c1 n fl 0;
                 for_each (backfill fl) (keys c) c
               }
               else Some c1) = Some c2 \<and> fmlookup c2 n \<noteq> None"
  proof (cases "fmlookup (row_of c1 n) fl = None")
    case True
    from store_total[OF c1] obtain c where c: "store c1 n fl 0 = Some c"
      by blast
    have cd: "fmdom c = fmdom c1" using c by (rule store_dom)
    let ?I = "\<lambda>s. fmdom s = fmdom c"
    have "\<exists>s'. for_each (backfill fl) (keys c) c = Some s' \<and> ?I s'"
    proof (rule for_each_invariant[where I = ?I])
      show "fmdom c = fmdom c" ..
    next
      fix x and s :: table
      assume x: "x \<in> set (keys c)" and s: "fmdom s = fmdom c"
      then have "x |\<in>| fmdom s" by (simp add: keys_def)
      then obtain r where "fmlookup s x = Some r" by (auto simp: fmlookup_dom_iff)
      then have "fmlookup s x \<noteq> None" by simp
      from store_total[OF this] obtain s' where s': "store s x fl 0 = Some s'" by blast
      from store_dom[OF s'] s show "\<exists>s'. backfill fl x s = Some s' \<and> fmdom s' = fmdom c"
        by (simp add: backfill_def s')
    qed
    then obtain c2 where c2: "for_each (backfill fl) (keys c) c = Some c2" "fmdom c2 = fmdom c"
      by blast
    have "fmlookup c2 n \<noteq> None"
    proof -
      have "n |\<in>| fmdom c1" using c1 by (simp add: fmlookup_dom_iff)
      then have "n |\<in>| fmdom c2" by (simp add: c2(2) cd)
      then show ?thesis by (simp add: fmlookup_dom_iff)
    qed
    then show ?thesis using True c c2 by simp
  next
    case False
    then show ?thesis using c1 by auto
  qed
  then obtain c2 where c2: "(if fmlookup (row_of c1 n) fl = None
               then do {
                 c \<leftarrow> store c1 n fl 0;
                 for_each (backfill fl) (keys c) c
               }
               else Some c1) = Some c2" "fmlookup c2 n \<noteq> None" by blast
  from increment_total[OF c2(2)] obtain c3 where c3: "increment c2 n fl = Some c3" by blast
  then have "\<exists>count. fmlookup (row_of c3 n) fl = Some count"
    by (auto simp: increment_def dest: store_entry)
  moreover have "PostBind f pod n =
      (if fmlookup (row_of c1 n) fl = None
       then do {
         c \<leftarrow> store c1 n fl 0;
         for_each (backfill fl) (keys c) c
       }
       else Some c1) \<bind> (\<lambda>c2. increment c2 n fl \<bind> (\<lambda>c3. Some (f\<lparr>cache := c3\<rparr>)))"
    unfolding PostBind_def Let_def fl_def c1_def using False by simp
  then have "PostBind f pod n = Some (f\<lparr>cache := c3\<rparr>)"
    by (simp only: c2(1) c3 bind.bind_lunit)
  ultimately show ?thesis by (simp add: fl_def)
qed

subsection \<open>The minimum that Score computes\<close>

lemma min_step_None: "fmlookup r fl = None \<Longrightarrow> min_step fl r acc = acc"
  by (simp add: min_step_def)

lemma min_step_Some:
  "fmlookup r fl = Some v \<Longrightarrow> min_step fl r acc = (if acc = - 1 \<or> v < acc then v else acc)"
  by (simp add: min_step_def)

text \<open>
  The loop started at \<open>acc\<close>, over rows whose counts are not negative: with the
  sentinel \<open>-1\<close> it returns the least count it meets, and the sentinel when it meets
  none; with a count it returns the least of that count and those it meets.
\<close>

lemma fold_min_step:
  assumes "\<And>n v. n \<in> set ks \<Longrightarrow> fmlookup (row_of c n) fl = Some v \<Longrightarrow> 0 \<le> v"
    and "acc = - 1 \<or> 0 \<le> acc"
  shows "fold (\<lambda>node. min_step fl (row_of c node)) ks acc =
    (if acc = - 1
     then (if List.map_filter (\<lambda>node. fmlookup (row_of c node) fl) ks = [] then - 1
           else Min (set (List.map_filter (\<lambda>node. fmlookup (row_of c node) fl) ks)))
     else Min (insert acc (set (List.map_filter (\<lambda>node. fmlookup (row_of c node) fl) ks))))"
  using assms
proof (induction ks arbitrary: acc)
  case Nil
  then show ?case by simp
next
  case (Cons k ks)
  let ?g = "\<lambda>node. fmlookup (row_of c node) fl"
  let ?vs = "List.map_filter ?g ks"
  have pos: "\<And>n v. n \<in> set ks \<Longrightarrow> ?g n = Some v \<Longrightarrow> 0 \<le> v"
    using Cons.prems(1) by fastforce
  show ?case
  proof (cases "?g k")
    case None
    have "fold (\<lambda>node. min_step fl (row_of c node)) (k # ks) acc
        = fold (\<lambda>node. min_step fl (row_of c node)) ks acc"
      by (simp add: min_step_None[OF None])
    also note Cons.IH[of acc, OF pos Cons.prems(2)]
    finally show ?thesis
      by (simp add: None)
  next
    case (Some v)
    have v: "0 \<le> v" using Cons.prems(1)[of k v] Some by simp
    define a where "a = (if acc = - 1 \<or> v < acc then v else acc)"
    have a: "a \<noteq> - 1" "0 \<le> a" "acc = - 1 \<Longrightarrow> a = v" "acc \<noteq> - 1 \<Longrightarrow> a = min v acc"
      using Cons.prems(2) v by (auto simp: a_def)
    have "fold (\<lambda>node. min_step fl (row_of c node)) (k # ks) acc
        = fold (\<lambda>node. min_step fl (row_of c node)) ks a"
      by (simp add: min_step_Some[OF Some] a_def)
    also have "\<dots> = Min (insert a (set ?vs))"
      using Cons.IH[of a] pos a by simp
    finally have eq:
      "fold (\<lambda>node. min_step fl (row_of c node)) (k # ks) acc = Min (insert a (set ?vs))" .
    have mf: "List.map_filter ?g (k # ks) = v # ?vs"
      by (simp add: Some)
    show ?thesis
    proof (cases "acc = - 1")
      case True
      then show ?thesis unfolding mf using eq a(3) by simp
    next
      case False
      have "Min (insert (min v acc) (set ?vs)) = Min (insert acc (insert v (set ?vs)))"
        by (cases "set ?vs = {}") (simp_all add: min.commute min.left_commute min.assoc)
      then show ?thesis unfolding mf using eq a(4)[OF False] False by simp
    qed
  qed
qed

lemma minPods_Min:
  assumes "nonneg c"
  shows "minPods c fl =
    (if present_counts c fl = [] then - 1 else Min (set (present_counts c fl)))"
  unfolding minPods_def present_counts_def
  using fold_min_step[of "keys c" c fl "- 1"] nonneg_lookup[OF assms]
  by simp

lemma minPods_no_entry:
  assumes "fmpred (\<lambda>node row. fmlookup row fl = None) c"
  shows "minPods c fl = - 1"
proof -
  have "\<And>n. fmlookup (row_of c n) fl = None"
    using assms by (auto simp: row_of_def fmpred_iff split: option.splits)
  then have "fold (\<lambda>node. min_step fl (row_of c node)) ks acc = acc" for ks acc
    by (induction ks arbitrary: acc) (simp_all add: min_step_None)
  then show ?thesis by (simp add: minPods_def)
qed

subsection \<open>The two paths of Score\<close>

lemma Score_applied:
  assumes "label pod (labelName f) = fl" "fl \<noteq> []"
    and "updateCacheIfNeeded w f = Some (f', qs)"
  shows "Score w f pod n =
    Some ((if count_of (row_of (cache f') n) fl = minPods (cache f') fl then 100 else 0,
           NewStatus Success []), f', qs)"
  using assms by (simp add: Score_def Let_def)

lemma Score_not_applied:
  assumes "label pod (labelName f) = []"
  shows "Score w f pod n = Some ((0, NewStatus Success (not_applied (labelName f))), f, [])"
  using assms by (simp add: Score_def)

subsection \<open>C1: uniformity of the table\<close>

text \<open>
  C1 says that in every state reached from the empty cache by rebuilds and PostBind
  calls, every row has an entry for every flavour that occurs in the table. The code
  does not keep this: PostBind gives a new flavour to every row, but a new row starts
  empty and gets the bound pod's flavour only. From the state \<open>New\<close> returns, binding
  a gold pod to \<open>A\<close> and then a silver pod to \<open>B\<close> ends in
  \<open>{A: {gold: 1, silver: 0}, B: {silver: 1}}\<close>: row \<open>B\<close> has no entry for gold.
\<close>

theorem C1_new_row_breaks_uniformity:
  "PostBind (New []) (flavoured ''gold'') ''A'' =
     Some (plugin (table_of [(''A'', [(''gold'', 1)])]) 0) \<and>
   PostBind (plugin (table_of [(''A'', [(''gold'', 1)])]) 0) (flavoured ''silver'') ''B'' =
     Some (plugin (table_of [(''A'', [(''gold'', 1), (''silver'', 0)]),
                             (''B'', [(''silver'', 1)])]) 0) \<and>
   fmlookup (row_of (table_of [(''A'', [(''gold'', 1), (''silver'', 0)]),
                               (''B'', [(''silver'', 1)])]) ''A'') ''gold'' = Some 1 \<and>
   fmlookup (row_of (table_of [(''A'', [(''gold'', 1), (''silver'', 0)]),
                               (''B'', [(''silver'', 1)])]) ''B'') ''gold'' = None \<and>
   \<not> uniform (table_of [(''A'', [(''gold'', 1), (''silver'', 0)]), (''B'', [(''silver'', 1)])])"
  by code_simp

text \<open>
  The rebuild has the same gap: a pod that runs on a node the node query did not
  list gets a row with its own flavour only.
\<close>

lemma rebuild_breaks_uniformity:
  "updateCacheIfNeeded
     (world_at (2 * Minute) (Inr [\<lparr>node_Name = ''A''\<rparr>])
        (Inr [running ''gold'' ''A'', running ''silver'' ''B'']))
     (New []) =
   Some (plugin (table_of [(''A'', [(''gold'', 1), (''silver'', 0)]),
                           (''B'', [(''silver'', 1)])]) (2 * Minute),
         [ListNodes workerSelector, ListPods [] ''flavour'']) \<and>
   \<not> uniform (table_of [(''A'', [(''gold'', 1), (''silver'', 0)]), (''B'', [(''silver'', 1)])])"
  by code_simp

text \<open>
  What the gap does to scoring: in the table above, node \<open>B\<close> runs no gold pod, yet
  its row is skipped by the minimum, the minimum is 1, and \<open>B\<close> scores 0 for a gold pod.
\<close>

lemma new_row_scores_zero:
  "Score (world_at 0 (Inl (ApiError [])) (Inl (ApiError [])))
     (plugin (table_of [(''A'', [(''gold'', 1), (''silver'', 0)]), (''B'', [(''silver'', 1)])]) 0)
     (flavoured ''gold'') ''B'' =
   Some ((0, NewStatus Success []),
     plugin (table_of [(''A'', [(''gold'', 1), (''silver'', 0)]), (''B'', [(''silver'', 1)])]) 0, [])"
  by code_simp

text \<open>
  The gap is the new row only: on a node that has a row, PostBind keeps a uniform table
  uniform. The back-fill loop gives the flavour to every row that lacks it.
\<close>

lemma uniform_iff:
  "uniform c \<longleftrightarrow>
     (\<forall>n r m r'. fmlookup c n = Some r \<longrightarrow> fmlookup c m = Some r' \<longrightarrow> fmdom r' |\<subseteq>| fmdom r)"
  by (auto simp: uniform_def fmpred_iff)

lemma fmdom_with_entry: "fmdom (with_entry fl r) = finsert fl (fmdom r)"
  by (auto simp: with_entry_def finsert_absorb fmlookup_dom_iff)

lemma with_entry_idem: "with_entry fl (with_entry fl r) = with_entry fl r"
  by (simp add: with_entry_def)

lemma backfill_lookup:
  assumes "fmlookup c k = Some r"
  shows "\<exists>c'. backfill fl k c = Some c' \<and>
     (\<forall>m. fmlookup c' m = (if m = k then Some (with_entry fl r) else fmlookup c m))"
  using assms by (auto simp: backfill_def store_def row_of_def with_entry_def)

lemma for_each_backfill:
  assumes "\<And>k. k \<in> set ks \<Longrightarrow> fmlookup c k \<noteq> None"
  shows "\<exists>c'. for_each (backfill fl) ks c = Some c' \<and>
     (\<forall>m. fmlookup c' m =
        (if m \<in> set ks then map_option (with_entry fl) (fmlookup c m) else fmlookup c m))"
  using assms
proof (induction ks arbitrary: c)
  case Nil
  then show ?case by simp
next
  case (Cons k ks)
  from Cons.prems[of k] obtain r where r: "fmlookup c k = Some r" by auto
  from backfill_lookup[OF r, of fl] obtain c1 where c1: "backfill fl k c = Some c1"
    "\<And>m. fmlookup c1 m = (if m = k then Some (with_entry fl r) else fmlookup c m)"
    by blast
  have "\<And>k'. k' \<in> set ks \<Longrightarrow> fmlookup c1 k' \<noteq> None"
    using Cons.prems by (simp add: c1(2))
  from Cons.IH[OF this] obtain c' where c': "for_each (backfill fl) ks c1 = Some c'"
    "\<And>m. fmlookup c' m =
        (if m \<in> set ks then map_option (with_entry fl) (fmlookup c1 m) else fmlookup c1 m)"
    by blast
  have "\<forall>m. fmlookup c' m =
        (if m \<in> set (k # ks) then map_option (with_entry fl) (fmlookup c m) else fmlookup c m)"
    by (simp add: c'(2) c1(2) r with_entry_idem)
  then show ?case by (simp add: c1(1) c'(1))
qed

lemma PostBind_known_node_uniform:
  assumes "uniform (cache f)" and "fmlookup (cache f) n \<noteq> None"
  shows "\<exists>f'. PostBind f pod n = Some f' \<and> uniform (cache f')"
proof (cases "label pod (labelName f) = []")
  case True
  then show ?thesis using assms(1) by (simp add: PostBind_def)
next
  case False
  define fl where "fl = label pod (labelName f)"
  from assms(2) obtain r0 where r0: "fmlookup (cache f) n = Some r0" by auto
  have unf: "PostBind f pod n =
      (if fmlookup r0 fl = None
       then do {
         c \<leftarrow> store (cache f) n fl 0;
         for_each (backfill fl) (keys c) c
       }
       else Some (cache f)) \<bind> (\<lambda>c2. increment c2 n fl \<bind> (\<lambda>c3. Some (f\<lparr>cache := c3\<rparr>)))"
    unfolding PostBind_def Let_def fl_def using False r0 by (simp add: row_of_def)
  show ?thesis
  proof (cases "fmlookup r0 fl = None")
    case True
    define c where "c = fmupd n (fmupd fl 0 r0) (cache f)"
    have c: "store (cache f) n fl 0 = Some c" by (simp add: store_def r0 c_def)
    have "\<And>k. k \<in> set (keys c) \<Longrightarrow> fmlookup c k \<noteq> None"
      by (simp add: keys_def fmlookup_dom_iff)
    from for_each_backfill[OF this, where fl = fl] obtain c2 where c2:
      "for_each (backfill fl) (keys c) c = Some c2"
      "\<And>m. fmlookup c2 m =
        (if m \<in> set (keys c) then map_option (with_entry fl) (fmlookup c m) else fmlookup c m)"
      by blast
    have c2': "fmlookup c2 m = map_option (with_entry fl) (fmlookup c m)" for m
      by (cases "fmlookup c m") (auto simp: c2(2) keys_def fmlookup_dom_iff)
    obtain r2 where r2: "fmlookup c2 n = Some r2" "fmdom r2 = finsert fl (fmdom r0)"
      by (simp add: c2' c_def fmdom_with_entry)
    define c3 where "c3 = fmupd n (fmupd fl (int_wrap (count_of r2 fl + 1)) r2) c2"
    have c3: "increment c2 n fl = Some c3"
      by (simp add: increment_def store_def r2 c3_def row_of_def)
    have pb: "PostBind f pod n = Some (f\<lparr>cache := c3\<rparr>)"
      unfolding unf using True by (simp add: c c2(1) c3)
    have dom: "\<exists>r. fmlookup (cache f) m = Some r \<and> fmdom r' = finsert fl (fmdom r)"
      if "fmlookup c3 m = Some r'" for m r'
    proof (cases "m = n")
      case True
      with that have "r' = fmupd fl (int_wrap (count_of r2 fl + 1)) r2"
        by (simp add: c3_def)
      then have "fmdom r' = finsert fl (fmdom r0)" by (simp add: r2(2))
      then show ?thesis using True r0 by simp
    next
      case False
      with that have "map_option (with_entry fl) (fmlookup (cache f) m) = Some r'"
        by (simp add: c3_def c2' c_def)
      then obtain r where "fmlookup (cache f) m = Some r" "r' = with_entry fl r"
        by (cases "fmlookup (cache f) m") simp_all
      then show ?thesis by (simp add: fmdom_with_entry)
    qed
    have "uniform c3"
      unfolding uniform_iff
    proof (intro allI impI)
      fix a ra b rb
      assume "fmlookup c3 a = Some ra" "fmlookup c3 b = Some rb"
      from dom[OF this(1)] dom[OF this(2)] obtain ra' rb' where
        "fmlookup (cache f) a = Some ra'" "fmdom ra = finsert fl (fmdom ra')"
        "fmlookup (cache f) b = Some rb'" "fmdom rb = finsert fl (fmdom rb')"
        by blast
      moreover from this assms(1) have "fmdom rb' |\<subseteq>| fmdom ra'"
        unfolding uniform_iff by blast
      ultimately show "fmdom rb |\<subseteq>| fmdom ra" by auto
    qed
    then show ?thesis by (simp add: pb)
  next
    case False
    define c3 where "c3 = fmupd n (fmupd fl (int_wrap (count_of r0 fl + 1)) r0) (cache f)"
    have c3: "increment (cache f) n fl = Some c3"
      by (simp add: increment_def store_def r0 c3_def row_of_def)
    have pb: "PostBind f pod n = Some (f\<lparr>cache := c3\<rparr>)"
      unfolding unf using False by (auto simp: c3)
    have dom: "\<exists>r. fmlookup (cache f) m = Some r \<and> fmdom r' = fmdom r"
      if "fmlookup c3 m = Some r'" for m r'
    proof (cases "m = n")
      case True
      with that have "r' = fmupd fl (int_wrap (count_of r0 fl + 1)) r0"
        by (simp add: c3_def)
      moreover have "fl |\<in>| fmdom r0" using False by (simp add: fmlookup_dom_iff)
      ultimately have "fmdom r' = fmdom r0" by (simp add: finsert_absorb)
      then show ?thesis using True r0 by simp
    next
      case False
      with that show ?thesis by (simp add: c3_def)
    qed
    have "uniform c3"
      unfolding uniform_iff
    proof (intro allI impI)
      fix a ra b rb
      assume "fmlookup c3 a = Some ra" "fmlookup c3 b = Some rb"
      from dom[OF this(1)] dom[OF this(2)] obtain ra' rb' where
        "fmlookup (cache f) a = Some ra'" "fmdom ra = fmdom ra'"
        "fmlookup (cache f) b = Some rb'" "fmdom rb = fmdom rb'"
        by blast
      moreover from this assms(1) have "fmdom rb' |\<subseteq>| fmdom ra'"
        unfolding uniform_iff by blast
      ultimately show "fmdom rb |\<subseteq>| fmdom ra" by auto
    qed
    then show ?thesis by (simp add: pb)
  qed
qed

subsection \<open>C2: rows with no entry for the flavour\<close>

text \<open>
  C2, as stated: the minimum that Score computes is the minimum, over all rows, of the
  row's count for the flavour, a row with no entry counting as zero. It is not: in the
  table \<open>{A: {gold: 2}, B: {}}\<close> the loop skips row \<open>B\<close> and ends with 2, where the
  minimum with \<open>B\<close> counted as zero is 0.
\<close>

theorem C2_absent_as_zero_counterexample:
  "minPods (table_of [(''A'', [(''gold'', 2)]), (''B'', [])]) ''gold'' = 2 \<and>
   Min (set (all_counts (table_of [(''A'', [(''gold'', 2)]), (''B'', [])]) ''gold'')) = 0"
  by code_simp

text \<open>
  C2, amended: in a table with no negative count, the minimum that Score computes is
  the minimum of the counts of the rows that have an entry for the flavour (a row with
  no entry is skipped, not counted as zero), and the sentinel \<open>-1\<close> when no row has one.
\<close>

theorem C2_min_over_present_rows:
  assumes "nonneg c"
  shows "minPods c flavour =
    (if present_counts c flavour = [] then - 1 else Min (set (present_counts c flavour)))"
  using assms by (rule minPods_Min)

theorem C2_min_over_present_rows_witness:
  "nonneg (table_of [(''A'', [(''gold'', 2)]), (''B'', [])]) \<and>
   minPods (table_of [(''A'', [(''gold'', 2)]), (''B'', [])]) ''gold'' = 2 \<and>
   minPods (table_of [(''A'', []), (''B'', [])]) ''gold'' = - 1"
proof -
  have h1: "nonneg (table_of [(''A'', [(''gold'', 2)]), (''B'', [])])"
    by code_simp
  have h2: "nonneg (table_of [(''A'', []), (''B'', [])])"
    by code_simp
  have p1: "present_counts (table_of [(''A'', [(''gold'', 2)]), (''B'', [])]) ''gold'' = [2]"
    by code_simp
  have p2: "present_counts (table_of [(''A'', []), (''B'', [])]) ''gold'' = []"
    by code_simp
  show ?thesis
    using h1 C2_min_over_present_rows[OF h1, of "''gold''"]
      C2_min_over_present_rows[OF h2, of "''gold''"]
    by (simp add: p1 p2)
qed

subsection \<open>C3: the incremental update, on the example\<close>

text \<open>
  C3 says that from \<open>{A: {gold: 0}}\<close> three PostBind calls with a gold pod on \<open>A\<close>
  give \<open>A: {gold: 3}\<close>, and that one more with a silver pod on \<open>B\<close> back-fills
  \<open>A: {silver: 0}\<close> and creates \<open>B: {gold: 0, silver: 1}\<close>. The code does all of it
  but the last: the new row is \<open>B: {silver: 1}\<close>, with no entry for gold.
\<close>

theorem C3_postbind_example:
  "PostBind (plugin (table_of [(''A'', [(''gold'', 0)])]) 0) (flavoured ''gold'') ''A'' =
     Some (plugin (table_of [(''A'', [(''gold'', 1)])]) 0) \<and>
   PostBind (plugin (table_of [(''A'', [(''gold'', 1)])]) 0) (flavoured ''gold'') ''A'' =
     Some (plugin (table_of [(''A'', [(''gold'', 2)])]) 0) \<and>
   PostBind (plugin (table_of [(''A'', [(''gold'', 2)])]) 0) (flavoured ''gold'') ''A'' =
     Some (plugin (table_of [(''A'', [(''gold'', 3)])]) 0) \<and>
   PostBind (plugin (table_of [(''A'', [(''gold'', 3)])]) 0) (flavoured ''silver'') ''B'' =
     Some (plugin (table_of [(''A'', [(''gold'', 3), (''silver'', 0)]),
                             (''B'', [(''silver'', 1)])]) 0) \<and>
   table_of [(''A'', [(''gold'', 3), (''silver'', 0)]), (''B'', [(''silver'', 1)])] \<noteq>
   table_of [(''A'', [(''gold'', 3), (''silver'', 0)]), (''B'', [(''gold'', 0), (''silver'', 1)])]"
  by code_simp

subsection \<open>C4: the binary scoring rule\<close>

text \<open>
  C4, as stated: Score returns 100 when the candidate's count for the flavour equals the
  cluster-wide minimum count, and 0 otherwise, the cluster-wide minimum counting a row
  with no entry as zero. It does not, in either direction. In the table
  \<open>{A: {gold: 1, silver: 0}, B: {silver: 1}}\<close>, which two PostBind calls reach from the
  empty cache, the minimum with row \<open>B\<close> counted as zero is 0. Candidate \<open>B\<close> has
  count 0, equal to that minimum, and scores 0; candidate \<open>A\<close> has count 1, not equal
  to it, and scores 100. The loop skips row \<open>B\<close>, so the minimum it compares with is 1.
\<close>

theorem C4_cluster_minimum_counterexample:
  "count_of (row_of (table_of [(''A'', [(''gold'', 1), (''silver'', 0)]),
                               (''B'', [(''silver'', 1)])]) ''B'') ''gold'' =
     Min (set (all_counts (table_of [(''A'', [(''gold'', 1), (''silver'', 0)]),
                                     (''B'', [(''silver'', 1)])]) ''gold'')) \<and>
   Score (world_at 2000 (Inr []) (Inr []))
     (plugin (table_of [(''A'', [(''gold'', 1), (''silver'', 0)]), (''B'', [(''silver'', 1)])]) 1000)
     (flavoured ''gold'') ''B'' =
   Some ((0, NewStatus Success []),
     plugin (table_of [(''A'', [(''gold'', 1), (''silver'', 0)]), (''B'', [(''silver'', 1)])]) 1000,
     []) \<and>
   count_of (row_of (table_of [(''A'', [(''gold'', 1), (''silver'', 0)]),
                               (''B'', [(''silver'', 1)])]) ''A'') ''gold'' \<noteq>
     Min (set (all_counts (table_of [(''A'', [(''gold'', 1), (''silver'', 0)]),
                                     (''B'', [(''silver'', 1)])]) ''gold'')) \<and>
   Score (world_at 2000 (Inr []) (Inr []))
     (plugin (table_of [(''A'', [(''gold'', 1), (''silver'', 0)]), (''B'', [(''silver'', 1)])]) 1000)
     (flavoured ''gold'') ''A'' =
   Some ((100, NewStatus Success []),
     plugin (table_of [(''A'', [(''gold'', 1), (''silver'', 0)]), (''B'', [(''silver'', 1)])]) 1000,
     [])"
  by code_simp

text \<open>
  C4, amended: for a pod with a non-empty flavour, on the table that the refresh leaves
  (with no negative count), Score returns 100 with a Success status when the candidate's
  count for the flavour (zero when it has none) equals the minimum of the counts of the
  rows that have an entry for the flavour (a row with no entry is left out of the
  minimum), and 0 with a Success status otherwise, also when no row has an entry. The
  example of the claim, \<open>{A: {gold: 2}, B: {gold: 5}, C: {gold: 2}}\<close>, where every
  row has an entry, is the witness.
\<close>

theorem C4_binary_scoring:
  assumes "label pod (labelName f) = flavour" and "flavour \<noteq> []"
    and "updateCacheIfNeeded w f = Some (f', qs)"
    and "nonneg (cache f')"
  shows "Score w f pod nodeName =
    Some ((if present_counts (cache f') flavour \<noteq> [] \<and>
              count_of (row_of (cache f') nodeName) flavour =
                Min (set (present_counts (cache f') flavour))
           then 100 else 0, NewStatus Success []), f', qs)"
  using Score_applied[OF assms(1-3), of nodeName] minPods_Min[OF assms(4), of flavour]
    count_of_nonneg[OF assms(4), of nodeName flavour]
  by auto

theorem C4_binary_scoring_witness:
  "Score (world_at 0 (Inl (ApiError [])) (Inl (ApiError [])))
     (plugin (table_of [(''A'', [(''gold'', 2)]), (''B'', [(''gold'', 5)]), (''C'', [(''gold'', 2)])]) 0)
     (flavoured ''gold'') ''A'' =
   Some ((100, NewStatus Success []),
     plugin (table_of [(''A'', [(''gold'', 2)]), (''B'', [(''gold'', 5)]), (''C'', [(''gold'', 2)])]) 0, []) \<and>
   Score (world_at 0 (Inl (ApiError [])) (Inl (ApiError [])))
     (plugin (table_of [(''A'', [(''gold'', 2)]), (''B'', [(''gold'', 5)]), (''C'', [(''gold'', 2)])]) 0)
     (flavoured ''gold'') ''B'' =
   Some ((0, NewStatus Success []),
     plugin (table_of [(''A'', [(''gold'', 2)]), (''B'', [(''gold'', 5)]), (''C'', [(''gold'', 2)])]) 0, []) \<and>
   Score (world_at 0 (Inl (ApiError [])) (Inl (ApiError [])))
     (plugin (table_of [(''A'', [(''gold'', 2)]), (''B'', [(''gold'', 5)]), (''C'', [(''gold'', 2)])]) 0)
     (flavoured ''gold'') ''C'' =
   Some ((100, NewStatus Success []),
     plugin (table_of [(''A'', [(''gold'', 2)]), (''B'', [(''gold'', 5)]), (''C'', [(''gold'', 2)])]) 0, [])"
proof -
  let ?T = "table_of [(''A'', [(''gold'', 2)]), (''B'', [(''gold'', 5)]), (''C'', [(''gold'', 2)])]"
  let ?w = "world_at 0 (Inl (ApiError [])) (Inl (ApiError []))"
  have l: "label (flavoured ''gold'') (labelName (plugin ?T 0)) = ''gold''"
    by (simp add: label_def flavoured_def plugin_def)
  have ne: "''gold'' \<noteq> []" by simp
  have u: "updateCacheIfNeeded ?w (plugin ?T 0) = Some (plugin ?T 0, [])"
    by (rule updateCacheIfNeeded_fresh) (simp add: since_def Minute_def world_at_def plugin_def)
  have nn: "nonneg (cache (plugin ?T 0))" by code_simp
  have p: "present_counts (cache (plugin ?T 0)) ''gold'' = [2, 5, 2]" by code_simp
  have c: "count_of (row_of (cache (plugin ?T 0)) ''A'') ''gold'' = 2"
    "count_of (row_of (cache (plugin ?T 0)) ''B'') ''gold'' = 5"
    "count_of (row_of (cache (plugin ?T 0)) ''C'') ''gold'' = 2"
    by code_simp+
  show ?thesis
    using C4_binary_scoring[OF l ne u nn, of "''A''"] C4_binary_scoring[OF l ne u nn, of "''B''"]
      C4_binary_scoring[OF l ne u nn, of "''C''"]
    by (simp add: p c)
qed

subsection \<open>C5: the refresh within the time to live\<close>

text \<open>
  C5, as stated, ends with: two Score calls within one minute of each other, with no
  PostBind between them, see the same table. They need not: the minute runs from the
  freshness marker, not from the first call. With the marker at 0, a call at 59 s does
  not refresh and sees \<open>{A: {gold: 1}}\<close>; a call two seconds later, at 61 s, does
  refresh, and sees the table the inventory gives, \<open>{A: {}}\<close>.
\<close>

theorem C5_two_calls_counterexample:
  "clock_since (world_at 61000000000 (Inr [\<lparr>node_Name = ''A''\<rparr>]) (Inr []))
     - clock_since (world_at 59000000000 (Inr [\<lparr>node_Name = ''A''\<rparr>]) (Inr [])) < Minute \<and>
   Score (world_at 59000000000 (Inr [\<lparr>node_Name = ''A''\<rparr>]) (Inr []))
     (plugin (table_of [(''A'', [(''gold'', 1)])]) 0) (flavoured ''gold'') ''A'' =
   Some ((100, NewStatus Success []), plugin (table_of [(''A'', [(''gold'', 1)])]) 0, []) \<and>
   Score (world_at 61000000000 (Inr [\<lparr>node_Name = ''A''\<rparr>]) (Inr []))
     (plugin (table_of [(''A'', [(''gold'', 1)])]) 0) (flavoured ''gold'') ''A'' =
   Some ((0, NewStatus Success []), plugin (table_of [(''A'', [])]) 61000000000,
         [ListNodes workerSelector, ListPods [] ''flavour'']) \<and>
   table_of [(''A'', [])] \<noteq> table_of [(''A'', [(''gold'', 1)])]"
  by code_simp

text \<open>
  C5, amended: when less than one minute has passed since the freshness marker,
  updateCacheIfNeeded returns without a query and leaves the state (table and marker)
  as it was; so a Score call made less than one minute after the marker that the
  previous Score call left makes no query and sees the table that call left.
\<close>

theorem C5_ttl_frame:
  "(since (clock_since w) (lastUpdated f) < Minute \<longrightarrow>
      updateCacheIfNeeded w f = Some (f, [])) \<and>
   (Score w1 f pod1 n1 = Some (r1, f1, qs1) \<and>
    since (clock_since w2) (lastUpdated f1) < Minute \<longrightarrow>
      (\<exists>r2. Score w2 f1 pod2 n2 = Some (r2, f1, [])))"
proof (intro conjI impI)
  assume "since (clock_since w) (lastUpdated f) < Minute"
  then show "updateCacheIfNeeded w f = Some (f, [])" by (rule updateCacheIfNeeded_fresh)
next
  assume "Score w1 f pod1 n1 = Some (r1, f1, qs1) \<and>
    since (clock_since w2) (lastUpdated f1) < Minute"
  then have u: "updateCacheIfNeeded w2 f1 = Some (f1, [])"
    by (simp add: updateCacheIfNeeded_fresh)
  show "\<exists>r2. Score w2 f1 pod2 n2 = Some (r2, f1, [])"
  proof (cases "label pod2 (labelName f1) = []")
    case True
    then show ?thesis by (simp add: Score_not_applied)
  next
    case False
    then show ?thesis using Score_applied[OF refl False u, of n2] by simp
  qed
qed

theorem C5_ttl_frame_witness:
  "since (clock_since (world_at 2000 (Inr []) (Inr []))) (lastUpdated (plugin (table_of [(''A'', [(''gold'', 1)])]) 1000)) < Minute \<and>
   updateCacheIfNeeded (world_at 2000 (Inr []) (Inr [])) (plugin (table_of [(''A'', [(''gold'', 1)])]) 1000) =
     Some (plugin (table_of [(''A'', [(''gold'', 1)])]) 1000, []) \<and>
   Score (world_at 2000 (Inr []) (Inr [])) (plugin (table_of [(''A'', [(''gold'', 1)])]) 1000)
     (flavoured ''gold'') ''A'' =
     Some ((100, NewStatus Success []), plugin (table_of [(''A'', [(''gold'', 1)])]) 1000, []) \<and>
   since (clock_since (world_at 3000 (Inr []) (Inr []))) (lastUpdated (plugin (table_of [(''A'', [(''gold'', 1)])]) 1000)) < Minute \<and>
   (\<exists>r2. Score (world_at 3000 (Inr []) (Inr [])) (plugin (table_of [(''A'', [(''gold'', 1)])]) 1000)
      (flavoured ''gold'') ''B'' = Some (r2, plugin (table_of [(''A'', [(''gold'', 1)])]) 1000, []))"
proof -
  let ?f = "plugin (table_of [(''A'', [(''gold'', 1)])]) 1000"
  have t1: "since (clock_since (world_at 2000 (Inr []) (Inr []))) (lastUpdated ?f) < Minute"
    by (simp add: since_def Minute_def world_at_def plugin_def)
  have t2: "since (clock_since (world_at 3000 (Inr []) (Inr []))) (lastUpdated ?f) < Minute"
    by (simp add: since_def Minute_def world_at_def plugin_def)
  have s1: "Score (world_at 2000 (Inr []) (Inr [])) ?f (flavoured ''gold'') ''A'' =
     Some ((100, NewStatus Success []), ?f, [])"
    by code_simp
  show ?thesis
    using t1 t2 s1
      C5_ttl_frame[of "world_at 2000 (Inr []) (Inr [])" ?f
        "world_at 2000 (Inr []) (Inr [])" "flavoured ''gold''" "''A''"
        "(100, NewStatus Success [])" ?f "[]" "world_at 3000 (Inr []) (Inr [])"
        "flavoured ''gold''" "''B''"]
    by simp
qed

subsection \<open>C6: a refresh that fails\<close>

text \<open>
  C6: when a refresh is due and the node query or the pod query fails,
  updateCacheIfNeeded returns the state as it was (table and marker), having made a
  query; and the Score call in which this happens returns, with a Success status, the
  score of the table from before the failure.
\<close>

theorem C6_failed_refresh:
  assumes "\<not> since (clock_since w) (lastUpdated f) < Minute"
    and "isl (nodes_answer w workerSelector) \<or> isl (pods_answer w [] (labelName f))"
    and "label pod (labelName f) = flavour" and "flavour \<noteq> []"
  shows "\<exists>qs. updateCacheIfNeeded w f = Some (f, qs) \<and> qs \<noteq> [] \<and>
     Score w f pod nodeName =
       Some ((if count_of (row_of (cache f) nodeName) flavour = minPods (cache f) flavour
              then 100 else 0, NewStatus Success []), f, qs)"
proof -
  have "\<exists>qs. updateCacheIfNeeded w f = Some (f, qs) \<and> qs \<noteq> []"
  proof (cases "nodes_answer w workerSelector")
    case (Inl err)
    then show ?thesis using assms(1) by (simp add: updateCacheIfNeeded_def)
  next
    case (Inr nodes)
    with assms(2) obtain err where "pods_answer w [] (labelName f) = Inl err"
      by (auto simp: isl_def)
    then show ?thesis using assms(1) Inr by (simp add: updateCacheIfNeeded_def)
  qed
  then obtain qs where u: "updateCacheIfNeeded w f = Some (f, qs)" "qs \<noteq> []"
    by blast
  from Score_applied[OF assms(3,4) u(1), of nodeName] u show ?thesis by simp
qed

theorem C6_failed_refresh_witness:
  "Score (world_at (2 * Minute) (Inl (ApiError ''timeout'')) (Inr []))
     (plugin (table_of [(''A'', [(''gold'', 1)]), (''B'', [(''gold'', 4)])]) 0)
     (flavoured ''gold'') ''A'' =
     Some ((100, NewStatus Success []),
       plugin (table_of [(''A'', [(''gold'', 1)]), (''B'', [(''gold'', 4)])]) 0,
       [ListNodes workerSelector]) \<and>
   Score (world_at (2 * Minute) (Inr []) (Inl (ApiError ''timeout'')))
     (plugin (table_of [(''A'', [(''gold'', 1)]), (''B'', [(''gold'', 4)])]) 0)
     (flavoured ''gold'') ''B'' =
     Some ((0, NewStatus Success []),
       plugin (table_of [(''A'', [(''gold'', 1)]), (''B'', [(''gold'', 4)])]) 0,
       [ListNodes workerSelector, ListPods [] ''flavour''])"
proof -
  let ?f = "plugin (table_of [(''A'', [(''gold'', 1)]), (''B'', [(''gold'', 4)])]) 0"
  let ?w1 = "world_at (2 * Minute) (Inl (ApiError ''timeout'')) (Inr [])"
  let ?w2 = "world_at (2 * Minute) (Inr []) (Inl (ApiError ''timeout''))"
  have d1: "\<not> since (clock_since ?w1) (lastUpdated ?f) < Minute"
    and d2: "\<not> since (clock_since ?w2) (lastUpdated ?f) < Minute"
    by (simp_all add: since_def Minute_def world_at_def plugin_def)
  have e1: "isl (nodes_answer ?w1 workerSelector) \<or> isl (pods_answer ?w1 [] (labelName ?f))"
    and e2: "isl (nodes_answer ?w2 workerSelector) \<or> isl (pods_answer ?w2 [] (labelName ?f))"
    by (simp_all add: world_at_def)
  have l: "label (flavoured ''gold'') (labelName ?f) = ''gold''"
    by (simp add: label_def flavoured_def plugin_def)
  have ne: "''gold'' \<noteq> []" by simp
  have u1: "updateCacheIfNeeded ?w1 ?f = Some (?f, [ListNodes workerSelector])"
    and u2: "updateCacheIfNeeded ?w2 ?f = Some (?f, [ListNodes workerSelector, ListPods [] ''flavour''])"
    by code_simp+
  have m: "minPods (cache ?f) ''gold'' = 1"
    "count_of (row_of (cache ?f) ''A'') ''gold'' = 1"
    "count_of (row_of (cache ?f) ''B'') ''gold'' = 4"
    by code_simp+
  show ?thesis
    using C6_failed_refresh[OF d1 e1 l ne, of "''A''"] C6_failed_refresh[OF d2 e2 l ne, of "''B''"]
    by (simp add: u1 u2 m)
qed

subsection \<open>C7: a pod without the label\<close>

text \<open>
  C7: for a pod whose label is missing or empty, and any node, Score returns 0 with a
  Success status whose message says that scoring is not applied, makes no query and
  leaves the state (table and marker) as it was.
\<close>

theorem C7_empty_category:
  assumes "pod_Labels pod (labelName f) = None \<or> pod_Labels pod (labelName f) = Some []"
  shows "Score w f pod nodeName =
    Some ((0, NewStatus Success (not_applied (labelName f))), f, [])"
proof -
  from assms have "label pod (labelName f) = []" by (auto simp: label_def)
  then show ?thesis by (rule Score_not_applied)
qed

theorem C7_empty_category_witness:
  "Score (world_at (2 * Minute) (Inr []) (Inr [])) (plugin (table_of [(''A'', [(''gold'', 1)])]) 0)
     unlabelled ''A'' =
     Some ((0, NewStatus Success
              ''Pod does not have the 'flavour' label, scoring is not applied''),
           plugin (table_of [(''A'', [(''gold'', 1)])]) 0, []) \<and>
   Score (world_at (2 * Minute) (Inr []) (Inr [])) (plugin (table_of [(''A'', [(''gold'', 1)])]) 0)
     (flavoured []) ''A'' =
     Some ((0, NewStatus Success
              ''Pod does not have the 'flavour' label, scoring is not applied''),
           plugin (table_of [(''A'', [(''gold'', 1)])]) 0, [])"
proof -
  let ?f = "plugin (table_of [(''A'', [(''gold'', 1)])]) 0"
  have a: "pod_Labels unlabelled (labelName ?f) = None \<or> pod_Labels unlabelled (labelName ?f) = Some []"
    by (simp add: unlabelled_def)
  have b: "pod_Labels (flavoured []) (labelName ?f) = None \<or>
           pod_Labels (flavoured []) (labelName ?f) = Some []"
    by (simp add: flavoured_def plugin_def)
  have n: "not_applied (labelName ?f) = ''Pod does not have the 'flavour' label, scoring is not applied''"
    by (simp add: not_applied_def plugin_def)
  show ?thesis
    using C7_empty_category[OF a, of "world_at (2 * Minute) (Inr []) (Inr [])" "''A''"]
      C7_empty_category[OF b, of "world_at (2 * Minute) (Inr []) (Inr [])" "''A''"]
    by (simp add: n)
qed

subsection \<open>C8: no failure on unknown inputs\<close>

text \<open>
  C8: whatever the table, the pod and the node, Score returns a score (0 or 100) with a
  Success status, and PostBind returns (no write panics); after PostBind with a
  non-empty flavour the node's row has an entry for the flavour, created if it was
  missing.
\<close>

theorem C8_total:
  "(\<exists>score msg f' qs. Score w f pod nodeName = Some ((score, NewStatus Success msg), f', qs) \<and>
      (score = 0 \<or> score = 100)) \<and>
   (\<exists>f'. PostBind f pod nodeName = Some f' \<and>
      (label pod (labelName f) \<noteq> [] \<longrightarrow>
        (\<exists>count. fmlookup (row_of (cache f') nodeName) (label pod (labelName f)) = Some count)))"
proof
  show "\<exists>score msg f' qs. Score w f pod nodeName = Some ((score, NewStatus Success msg), f', qs) \<and>
      (score = 0 \<or> score = 100)"
  proof (cases "label pod (labelName f) = []")
    case True
    then show ?thesis by (simp add: Score_not_applied)
  next
    case False
    obtain f' qs where u: "updateCacheIfNeeded w f = Some (f', qs)"
      using updateCacheIfNeeded_total by blast
    show ?thesis using Score_applied[OF refl False u, of nodeName] by auto
  qed
  show "\<exists>f'. PostBind f pod nodeName = Some f' \<and>
      (label pod (labelName f) \<noteq> [] \<longrightarrow>
        (\<exists>count. fmlookup (row_of (cache f') nodeName) (label pod (labelName f)) = Some count))"
    by (rule PostBind_total)
qed

theorem C8_total_witness:
  "label (flavoured ''gold'') (labelName (New [])) \<noteq> [] \<and>
   (\<exists>score msg f' qs.
      Score (world_at (2 * Minute) (Inr []) (Inr [])) (New []) (flavoured ''gold'') ''Z'' =
        Some ((score, NewStatus Success msg), f', qs)) \<and>
   (\<exists>f'. PostBind (New []) (flavoured ''gold'') ''Z'' = Some f' \<and>
      (\<exists>count. fmlookup (row_of (cache f') ''Z'') ''gold'' = Some count))"
proof -
  have l: "label (flavoured ''gold'') (labelName (New [])) = ''gold''"
    by (simp add: label_def flavoured_def New_def defaultLabelName_def)
  show ?thesis
    using C8_total[of "world_at (2 * Minute) (Inr []) (Inr [])" "New []" "flavoured ''gold''" "''Z''"]
    unfolding l by auto
qed

subsection \<open>C9: a flavour that no row has\<close>

text \<open>
  C9: for a pod with a non-empty flavour, when no row of the table that the refresh
  leaves has an entry for the flavour (the empty table is one such), the minimum stays
  at the sentinel \<open>-1\<close>, the candidate's count reads as 0, and Score returns 0 with a
  Success status.
\<close>

theorem C9_no_entry_scores_zero:
  assumes "label pod (labelName f) = flavour" and "flavour \<noteq> []"
    and "updateCacheIfNeeded w f = Some (f', qs)"
    and "fmpred (\<lambda>node row. fmlookup row flavour = None) (cache f')"
  shows "minPods (cache f') flavour = - 1 \<and>
    count_of (row_of (cache f') nodeName) flavour = 0 \<and>
    Score w f pod nodeName = Some ((0, NewStatus Success []), f', qs)"
proof -
  have m: "minPods (cache f') flavour = - 1" using assms(4) by (rule minPods_no_entry)
  have c: "count_of (row_of (cache f') nodeName) flavour = 0"
    using assms(4) by (auto simp: count_of_def row_of_def fmpred_iff split: option.splits)
  show ?thesis using Score_applied[OF assms(1-3), of nodeName] m c by simp
qed

theorem C9_no_entry_scores_zero_witness:
  "Score (world_at 2000 (Inr []) (Inr [])) (plugin fmempty 1000) (flavoured ''gold'') ''A'' =
     Some ((0, NewStatus Success []), plugin fmempty 1000, []) \<and>
   Score (world_at 2000 (Inr []) (Inr [])) (plugin (table_of [(''A'', [(''silver'', 0)])]) 1000)
     (flavoured ''gold'') ''A'' =
     Some ((0, NewStatus Success []), plugin (table_of [(''A'', [(''silver'', 0)])]) 1000, [])"
proof -
  let ?w = "world_at 2000 (Inr []) (Inr [])"
  let ?f = "plugin fmempty 1000"
  let ?g = "plugin (table_of [(''A'', [(''silver'', 0)])]) 1000"
  have lf: "label (flavoured ''gold'') (labelName ?f) = ''gold''"
    and lg: "label (flavoured ''gold'') (labelName ?g) = ''gold''"
    by (simp_all add: label_def flavoured_def plugin_def)
  have ne: "''gold'' \<noteq> []" by simp
  have uf: "updateCacheIfNeeded ?w ?f = Some (?f, [])"
    and ug: "updateCacheIfNeeded ?w ?g = Some (?g, [])"
    by (rule updateCacheIfNeeded_fresh, simp add: since_def Minute_def world_at_def plugin_def)+
  have pf: "fmpred (\<lambda>node row. fmlookup row ''gold'' = None) (cache ?f)"
    and pg: "fmpred (\<lambda>node row. fmlookup row ''gold'' = None) (cache ?g)"
    by code_simp+
  show ?thesis
    using C9_no_entry_scores_zero[OF lf ne uf pf, of "''A''"]
      C9_no_entry_scores_zero[OF lg ne ug pg, of "''A''"]
    by simp
qed

subsection \<open>C10: a candidate with no row\<close>

text \<open>
  C10: for a pod with a non-empty flavour and a candidate that has no row in the table
  that the refresh leaves (with no negative count), the candidate's count reads as 0,
  and Score returns 100 exactly when some row has an entry for the flavour and the
  minimum of those entries is 0; it returns 0 otherwise.
\<close>

theorem C10_unknown_candidate:
  assumes "label pod (labelName f) = flavour" and "flavour \<noteq> []"
    and "updateCacheIfNeeded w f = Some (f', qs)"
    and "nonneg (cache f')"
    and "fmlookup (cache f') nodeName = None"
  shows "count_of (row_of (cache f') nodeName) flavour = 0 \<and>
    Score w f pod nodeName =
      Some ((if present_counts (cache f') flavour \<noteq> [] \<and>
                Min (set (present_counts (cache f') flavour)) = 0
             then 100 else 0, NewStatus Success []), f', qs)"
proof -
  have c: "count_of (row_of (cache f') nodeName) flavour = 0"
    using assms(5) by (simp add: count_of_def row_of_def)
  show ?thesis
    using Score_applied[OF assms(1-3), of nodeName] minPods_Min[OF assms(4), of flavour] c
    by auto
qed

theorem C10_unknown_candidate_witness:
  "Score (world_at 2000 (Inr []) (Inr []))
     (plugin (table_of [(''A'', [(''gold'', 0)]), (''B'', [(''gold'', 3)])]) 1000)
     (flavoured ''gold'') ''Z'' =
     Some ((100, NewStatus Success []),
       plugin (table_of [(''A'', [(''gold'', 0)]), (''B'', [(''gold'', 3)])]) 1000, []) \<and>
   Score (world_at 2000 (Inr []) (Inr []))
     (plugin (table_of [(''A'', [(''gold'', 2)]), (''B'', [(''gold'', 3)])]) 1000)
     (flavoured ''gold'') ''Z'' =
     Some ((0, NewStatus Success []),
       plugin (table_of [(''A'', [(''gold'', 2)]), (''B'', [(''gold'', 3)])]) 1000, [])"
proof -
  let ?w = "world_at 2000 (Inr []) (Inr [])"
  let ?f = "plugin (table_of [(''A'', [(''gold'', 0)]), (''B'', [(''gold'', 3)])]) 1000"
  let ?g = "plugin (table_of [(''A'', [(''gold'', 2)]), (''B'', [(''gold'', 3)])]) 1000"
  have lf: "label (flavoured ''gold'') (labelName ?f) = ''gold''"
    and lg: "label (flavoured ''gold'') (labelName ?g) = ''gold''"
    by (simp_all add: label_def flavoured_def plugin_def)
  have ne: "''gold'' \<noteq> []" by simp
  have uf: "updateCacheIfNeeded ?w ?f = Some (?f, [])"
    and ug: "updateCacheIfNeeded ?w ?g = Some (?g, [])"
    by (rule updateCacheIfNeeded_fresh, simp add: since_def Minute_def world_at_def plugin_def)+
  have nf: "nonneg (cache ?f)" and ng: "nonneg (cache ?g)" by code_simp+
  have zf: "fmlookup (cache ?f) ''Z'' = None" and zg: "fmlookup (cache ?g) ''Z'' = None"
    by code_simp+
  have p: "present_counts (cache ?f) ''gold'' = [0, 3]" "present_counts (cache ?g) ''gold'' = [2, 3]"
    by code_simp+
  show ?thesis
    using C10_unknown_candidate[OF lf ne uf nf zf] C10_unknown_candidate[OF lg ne ug ng zg]
    by (simp add: p)
qed

end
